theory Spec2Isabelle
  imports Complex_Main
begin

section \<open>The WaveNet vocoder of models/wavenet.py\<close>

text \<open>
  The development follows the class \<open>WaveNet\<close> of \<open>src/models/wavenet.py\<close>. Tensors of
  floats are lists of reals, so all arithmetic is exact: rounding of the float kernels
  is outside the model. Every \<open>raise\<close> of the source is a value of the type \<open>error\<close>.
\<close>

subsection \<open>Errors and configuration\<close>

datatype error =
    RuntimeError string
  | AssertionError
  | AttributeError
  | IndexError
  | ZeroDivisionError
  | ShapeError

text \<open>
  The fields of \<open>ModelConfig\<close> that the methods of \<open>WaveNet\<close> read themselves. The
  remaining fields are only handed to the constructor of the inner module and to the
  optimizer.
\<close>

record model_config =
  quantize_channels :: int
  out_channels :: nat
  input_type :: string
  output_distribution :: string

subsection \<open>The label transforms\<close>

text \<open>
  \<open>label_2_float\<close> (line 349) and \<open>float_2_label\<close> (line 352). The class count is a
  Python \<open>int\<close>; the sample is a float.
\<close>

definition label_2_float :: "real \<Rightarrow> int \<Rightarrow> real" where
  "label_2_float x n_classes = 2 * x / (real_of_int n_classes - 1) - 1"

definition float_2_label :: "real \<Rightarrow> int \<Rightarrow> real" where
  "float_2_label x n_classes = (x + 1) * real_of_int (n_classes - 1) / 2"

subsection \<open>Tensors\<close>

text \<open>
  A \<open>frame\<close> is the slice of a batched activation at one timestep, a tensor of shape
  \<open>[B, 1, C]\<close>: one vector of channels per batch element.
\<close>

type_synonym vec = "real list"
type_synonym frame = "vec list"

definition zeros :: "nat \<Rightarrow> nat \<Rightarrow> frame" where
  "zeros b c = replicate b (replicate c 0)"

definition zeros_like :: "frame \<Rightarrow> frame" where
  "zeros_like x = map (map (\<lambda>v. 0)) x"

definition vadd :: "vec \<Rightarrow> vec \<Rightarrow> vec" where
  "vadd u v = map2 (+) u v"

definition tadd :: "frame \<Rightarrow> frame \<Rightarrow> frame" where
  "tadd x y = map2 vadd x y"

definition tscale :: "frame \<Rightarrow> real \<Rightarrow> frame" where
  "tscale x a = map (map (\<lambda>v. v * a)) x"

subsection \<open>The inner module\<close>

text \<open>
  Modelled from the spec: the module \<open>wavenet_vocoder.wavenet.WaveNet\<close> that
  \<open>WaveNet.__init__\<close> wraps (its \<open>upsample_net\<close>, \<open>first_conv\<close>, \<open>conv_layers\<close>,
  \<open>last_conv_layers\<close>, \<open>clear_buffer\<close>, its parallel forward pass and the
  \<open>incremental_forward\<close> of its layers) is not among the sources. It is modelled from
  sections 4.1 to 4.3 of the specification: a pointwise first projection, a stack of gated
  residual blocks with a dilated causal convolution each, and a stack of pointwise
  projections. Global conditioning is absent: both drivers pass none.
\<close>

record linear =
  weight :: "real list list"
  bias :: "real list"

definition dot :: "vec \<Rightarrow> vec \<Rightarrow> real" where
  "dot u v = sum_list (map2 (*) u v)"

definition apply_linear :: "linear \<Rightarrow> vec \<Rightarrow> vec" where
  "apply_linear l v = map2 (\<lambda>row b. dot row v + b) (weight l) (bias l)"

definition sigmoid :: "real \<Rightarrow> real" where
  "sigmoid a = 1 / (1 + exp (- a))"

text \<open>
  A gated residual block: filter and gate are linear projections of the receptive window
  (the taps, oldest first, the current input last), the projected local conditioning is
  added before the gating, and the gated value is projected once to the residual path and
  once to the skip path.
\<close>

record block =
  dilation :: nat
  conv_filter :: linear
  conv_gate :: linear
  cond_filter :: linear
  cond_gate :: linear
  res_proj :: linear
  skip_proj :: linear

definition gated_unit :: "block \<Rightarrow> vec list \<Rightarrow> vec \<Rightarrow> vec \<Rightarrow> vec \<times> vec" where
  "gated_unit f taps x c =
     (let a = vadd (apply_linear (conv_filter f) (concat taps)) (apply_linear (cond_filter f) c);
          b = vadd (apply_linear (conv_gate f) (concat taps)) (apply_linear (cond_gate f) c);
          z = map2 (\<lambda>p q. tanh p * sigmoid q) a b
      in (vadd x (apply_linear (res_proj f) z), apply_linear (skip_proj f) z))"

text \<open>The block on a window of frames: every batch position on its own.\<close>

definition block_out :: "block \<Rightarrow> frame list \<Rightarrow> frame \<Rightarrow> frame \<Rightarrow> frame \<times> frame" where
  "block_out f window x c =
     (let outs = map (\<lambda>b. gated_unit f (map (\<lambda>w. w ! b) window) (x ! b) (c ! b))
                   [0..<length x]
      in (map fst outs, map snd outs))"

text \<open>
  The taps of a window of \<open>k\<close> frames spaced by the dilation \<open>d\<close>, read from the
  sequence \<open>ps\<close> starting at position \<open>t\<close>.
\<close>

definition window_at :: "nat \<Rightarrow> nat \<Rightarrow> frame list \<Rightarrow> nat \<Rightarrow> frame list" where
  "window_at d k ps t = map (\<lambda>j. ps ! (t + j * d)) [0..<k]"

text \<open>
  Parallel mode: the whole time axis at once, the input padded on the left with
  \<open>dilation * (kernel_size - 1)\<close> frames of zeros.
\<close>

definition block_forward ::
  "nat \<Rightarrow> block \<Rightarrow> frame list \<Rightarrow> frame list \<Rightarrow> (frame \<times> frame) list" where
  "block_forward k f xs cs =
     (let padded = replicate (dilation f * (k - 1)) (zeros_like (hd xs)) @ xs
      in map (\<lambda>t. block_out f (window_at (dilation f) k padded t) (xs ! t) (cs ! t))
           [0..<length xs])"

text \<open>
  Incremental mode: one timestep. The cache holds the last
  \<open>(kernel_size - 1) * dilation\<close> inputs of the block; an empty cache (after
  \<open>clear_buffer\<close>) stands for a history of silence. The new input is appended and the
  oldest one evicted.
\<close>

definition block_incremental ::
  "nat \<Rightarrow> block \<Rightarrow> frame list \<Rightarrow> frame \<Rightarrow> frame \<Rightarrow> (frame \<times> frame) \<times> frame list" where
  "block_incremental k f cache x c =
     (let history = (if cache = [] then replicate ((k - 1) * dilation f) (zeros_like x)
                     else cache);
          full = history @ [x]
      in (block_out f (window_at (dilation f) k full 0) x c, drop 1 full))"

datatype last_layer = ReLU | Conv1d1x1 linear

record upsampled =
  batch :: nat
  steps :: "frame list"

record module =
  kernel_size :: nat
  upsample_net :: "real list list list \<Rightarrow> upsampled"
  first_conv :: linear
  conv_layers :: "block list"
  last_conv_layers :: "last_layer list"

text \<open>
  \<open>upsample_net\<close> yields the conditioning at the sample rate, a tensor \<open>[B, C, T]\<close>. It is
  kept as its batch size (\<open>shape[0]\<close>) and its \<open>T\<close> time slices (\<open>size(-1)\<close> is their
  number): slice \<open>t\<close> is \<open>spectrograms.transpose(1, 2)[:, t, :]\<close>.
\<close>

definition conv1x1 :: "linear \<Rightarrow> frame \<Rightarrow> frame" where
  "conv1x1 l x = map (apply_linear l) x"

definition relu :: "frame \<Rightarrow> frame" where
  "relu x = map (map (\<lambda>v. max 0 v)) x"

text \<open>
  Of the last layers only the convolutions have an \<open>incremental_forward\<close>; on an
  activation the attribute is missing.
\<close>

fun last_incremental_forward :: "last_layer \<Rightarrow> frame \<Rightarrow> error + frame" where
  "last_incremental_forward ReLU x = Inl AttributeError"
| "last_incremental_forward (Conv1d1x1 l) x = Inr (conv1x1 l x)"

fun last_call :: "last_layer \<Rightarrow> frame \<Rightarrow> frame" where
  "last_call ReLU x = relu x"
| "last_call (Conv1d1x1 l) x = conv1x1 l x"

text \<open>
  The skip accumulator of both modes starts as the integer \<open>0\<close> (\<open>None\<close> here), and
  \<open>0 + h\<close> is \<open>h\<close>.
\<close>

fun add_skip :: "frame option \<Rightarrow> frame \<Rightarrow> frame option" where
  "add_skip None h = Some h"
| "add_skip (Some s) h = Some (tadd s h)"

text \<open>
  The parallel forward pass of the stack, layer by layer over the whole sequence, the
  skip sum scaled by \<open>1/sqrt(num_blocks)\<close>.
\<close>

fun conv_layers_forward ::
  "nat \<Rightarrow> block list \<Rightarrow> frame list \<Rightarrow> frame list \<Rightarrow> frame option list
   \<Rightarrow> frame list \<times> frame option list" where
  "conv_layers_forward k [] xs cs ss = (xs, ss)"
| "conv_layers_forward k (f # fs) xs cs ss =
     (let outs = block_forward k f xs cs
      in conv_layers_forward k fs (map fst outs) cs (map2 add_skip ss (map snd outs)))"

definition scale_skips :: "nat \<Rightarrow> frame option \<Rightarrow> frame" where
  "scale_skips n skips =
     (case skips of None \<Rightarrow> [] | Some s \<Rightarrow> tscale s (sqrt (1 / real n)))"

definition forward :: "module \<Rightarrow> frame list \<Rightarrow> frame list \<Rightarrow> error + frame list" where
  "forward m xs cs =
     (let (ys, ss) = conv_layers_forward (kernel_size m) (conv_layers m)
                       (map (conv1x1 (first_conv m)) xs) cs (replicate (length xs) None)
      in if length (conv_layers m) = 0 then Inl ZeroDivisionError
         else Inr (map (\<lambda>s. fold last_call (last_conv_layers m)
                              (scale_skips (length (conv_layers m)) s)) ss))"

subsection \<open>Library functions\<close>

text \<open>
  The functions of torch and torchaudio that the drivers call: the mu-law companding of
  \<open>torchaudio.functional\<close>, the conversion \<open>long()\<close> (truncation towards zero),
  \<open>softmax\<close>, \<open>argmax\<close> (the first maximal position) and \<open>one_hot\<close>.
\<close>

definition to_long :: "real \<Rightarrow> int" where
  "to_long r = (if 0 \<le> r then \<lfloor>r\<rfloor> else \<lceil>r\<rceil>)"

definition mu_law_encoding :: "int \<Rightarrow> real \<Rightarrow> int" where
  "mu_law_encoding channels x =
     (let mu = real_of_int channels - 1;
          x_mu = sgn x * ln (1 + mu * \<bar>x\<bar>) / ln (1 + mu)
      in to_long ((x_mu + 1) / 2 * mu + 1 / 2))"

definition mu_law_decoding :: "int \<Rightarrow> real \<Rightarrow> real" where
  "mu_law_decoding channels x_mu =
     (let mu = real_of_int channels - 1;
          x = x_mu / mu * 2 - 1
      in sgn x * (exp (\<bar>x\<bar> * ln (1 + mu)) - 1) / mu)"

definition softmax :: "vec \<Rightarrow> vec" where
  "softmax v = (let es = map exp v in map (\<lambda>e. e / sum_list es) es)"

fun argmax :: "real list \<Rightarrow> nat" where
  "argmax [] = 0"
| "argmax [x] = 0"
| "argmax (x # y # ys) =
     (let i = argmax (y # ys) in if x < (y # ys) ! i then Suc i else 0)"

definition one_hot :: "nat \<Rightarrow> nat \<Rightarrow> vec" where
  "one_hot n i = map (\<lambda>j. if j = i then 1 else 0) [0..<n]"

subsection \<open>Sampling\<close>

text \<open>
  The random source of a call: the draw of timestep \<open>t\<close> for batch position \<open>b\<close>.
  \<open>uniform\<close> is the uniform draw behind \<open>OneHotCategorical.sample\<close>.

  Modelled from the spec: \<open>sample_from_discretized_mix_logistic\<close> and
  \<open>sample_from_mix_gaussian\<close> are not among the sources. Following sections 4.3 and 7
  they take the parameters of a mixture of \<open>K\<close> components, \<open>3 * K\<close> channels per batch
  element, and refuse a tensor with another channel count (the error \<open>ShapeError\<close>);
  otherwise they draw one scalar per batch element from the mixture with the given
  parameters (the draws \<open>mix_logistic\<close> and \<open>mix_gaussian\<close>), clamped to the amplitude
  range.
\<close>

record random_source =
  uniform :: "nat \<Rightarrow> nat \<Rightarrow> real"
  mix_logistic :: "nat \<Rightarrow> nat \<Rightarrow> vec \<Rightarrow> real"
  mix_gaussian :: "nat \<Rightarrow> nat \<Rightarrow> vec \<Rightarrow> real"

definition clamp :: "real \<Rightarrow> real" where
  "clamp v = max (- 1) (min 1 v)"

definition mixture_parameters :: "frame \<Rightarrow> bool" where
  "mixture_parameters y = list_all (\<lambda>row. row \<noteq> [] \<and> length row mod 3 = 0) y"

definition sample_from_discretized_mix_logistic ::
  "random_source \<Rightarrow> nat \<Rightarrow> frame \<Rightarrow> error + frame" where
  "sample_from_discretized_mix_logistic rs t y =
     (if mixture_parameters y
      then Inr (map (\<lambda>(b, row). [clamp (mix_logistic rs t b row)]) (enumerate 0 y))
      else Inl ShapeError)"

definition sample_from_mix_gaussian :: "random_source \<Rightarrow> nat \<Rightarrow> frame \<Rightarrow> error + frame" where
  "sample_from_mix_gaussian rs t y =
     (if mixture_parameters y
      then Inr (map (\<lambda>(b, row). [clamp (mix_gaussian rs t b row)]) (enumerate 0 y))
      else Inl ShapeError)"

text \<open>The class whose interval of the cumulative probabilities holds the draw.\<close>

fun categorical_pick :: "real \<Rightarrow> real list \<Rightarrow> nat" where
  "categorical_pick u [] = 0"
| "categorical_pick u [p] = 0"
| "categorical_pick u (p # q # ps) =
     (if u < p then 0 else Suc (categorical_pick (u - p) (q # ps)))"

definition one_hot_categorical_sample :: "random_source \<Rightarrow> nat \<Rightarrow> frame \<Rightarrow> frame" where
  "one_hot_categorical_sample rs t probs =
     map (\<lambda>(b, row). one_hot (length row) (categorical_pick (uniform rs t b) row))
       (enumerate 0 probs)"

subsection \<open>The vocoder\<close>

text \<open>
  What \<open>__init__\<close> calls and the sources do not hold: the helpers \<open>is_mulaw_quantize\<close>
  and \<open>is_scalar_input\<close> of \<open>wavenet_vocoder.util\<close>, and the constructor of the inner
  module, which receives the configuration and \<open>scalar_input\<close>. They are parameters of
  the construction, and each of them may raise.
\<close>

record collaborators =
  is_mulaw_quantize :: "string \<Rightarrow> error + bool"
  is_scalar_input :: "string \<Rightarrow> error + bool"
  inner_wavenet :: "model_config \<Rightarrow> bool \<Rightarrow> error + module"


datatype criterion = CrossEntropyLoss | DiscretizedMixturelogisticLoss | MixtureGaussianLoss

text \<open>
  The object: its configuration, the attributes set by \<open>__init__\<close>, the inner module,
  the caches of the convolution layers (one per layer, in the order of \<open>conv_layers\<close>;
  the empty list after \<open>clear_buffer\<close>: no layer holds a cache) and the mode flag that
  \<open>eval()\<close> and \<open>train()\<close> set.
\<close>

record vocoder =
  config :: model_config
  scalar_input :: bool
  criterion :: criterion
  model :: module
  buffers :: "frame list list"
  training :: bool

text \<open>
  \<open>__init__\<close> (lines 87 to 139): \<open>is_scalar_input\<close> at line 94, the constructor of the inner
  module at lines 96 to 115, \<open>is_mulaw_quantize\<close> at line 127 and the choice of the
  criterion after it.
\<close>

definition new_vocoder :: "model_config \<Rightarrow> bool \<Rightarrow> module \<Rightarrow> criterion \<Rightarrow> vocoder" where
  "new_vocoder cfg sc m crit =
     \<lparr>config = cfg, scalar_input = sc, criterion = crit,
      model = m, buffers = [], training = True\<rparr>"

definition init :: "collaborators \<Rightarrow> model_config \<Rightarrow> error + vocoder" where
  "init d cfg =
     (case is_scalar_input d (input_type cfg) of
        Inl e \<Rightarrow> Inl e
      | Inr sc \<Rightarrow>
          (case inner_wavenet d cfg sc of
             Inl e \<Rightarrow> Inl e
           | Inr m \<Rightarrow>
               (case is_mulaw_quantize d (input_type cfg) of
                  Inl e \<Rightarrow> Inl e
                | Inr q \<Rightarrow>
                    if q then Inr (new_vocoder cfg sc m CrossEntropyLoss)
                    else if output_distribution cfg = ''Logistic''
                      then Inr (new_vocoder cfg sc m DiscretizedMixturelogisticLoss)
                    else if output_distribution cfg = ''Normal''
                      then Inr (new_vocoder cfg sc m MixtureGaussianLoss)
                    else Inl (RuntimeError (''Not supported output distribution type: ''
                                              @ output_distribution cfg)))))"

subsection \<open>Generation\<close>

text \<open>
  The loop over \<open>conv_layers\<close> of lines 283 to 286: every layer advances by one step on
  its own cache, passes its residual output on and adds its skip output to the sum. A
  layer without a cache yet has the empty one.
\<close>

fun conv_layers_incremental ::
  "nat \<Rightarrow> block list \<Rightarrow> frame list list \<Rightarrow> frame \<Rightarrow> frame \<Rightarrow> frame option
   \<Rightarrow> frame \<times> frame option \<times> frame list list" where
  "conv_layers_incremental k [] bufs x ct skips = (x, skips, [])"
| "conv_layers_incremental k (f # fs) bufs x ct skips =
     (let ((x', h), cache) = block_incremental k f (case bufs of [] \<Rightarrow> [] | q # qs \<Rightarrow> q) x ct;
          (y, s, bufs') = conv_layers_incremental k fs (tl bufs) x' ct (add_skip skips h)
      in (y, s, cache # bufs'))"

text \<open>The loop over \<open>last_conv_layers\<close> of lines 289 to 293.\<close>

fun last_conv_layers_incremental :: "last_layer list \<Rightarrow> frame \<Rightarrow> error + frame" where
  "last_conv_layers_incremental [] x = Inr x"
| "last_conv_layers_incremental (f # fs) x =
     (case last_incremental_forward f x of
        Inr y \<Rightarrow> last_conv_layers_incremental fs y
      | Inl AttributeError \<Rightarrow> last_conv_layers_incremental fs (last_call f x)
      | Inl e \<Rightarrow> Inl e)"

text \<open>
  The network part of one timestep (lines 282 to 293): the value left in \<open>x\<close> before
  sampling, and the caches.
\<close>

definition incremental_step ::
  "module \<Rightarrow> frame list list \<Rightarrow> frame \<Rightarrow> frame \<Rightarrow> (error + frame) \<times> frame list list" where
  "incremental_step m bufs x ct =
     (let x1 = conv1x1 (first_conv m) x;
          (x2, skips, bufs') =
             conv_layers_incremental (kernel_size m) (conv_layers m) bufs x1 ct None
      in if length (conv_layers m) = 0 then (Inl ZeroDivisionError, bufs')
         else (last_conv_layers_incremental (last_conv_layers m)
                 (scale_skips (length (conv_layers m)) skips), bufs'))"

text \<open>
  \<open>get_x_from_dist\<close> (lines 317 to 347) at timestep \<open>t\<close>. The logits are a frame already,
  so \<open>view(B, -1)\<close> changes nothing.
\<close>

definition get_x_from_dist ::
  "random_source \<Rightarrow> nat \<Rightarrow> vocoder \<Rightarrow> string \<Rightarrow> frame \<Rightarrow> frame list \<Rightarrow> bool \<Rightarrow> bool
   \<Rightarrow> error + frame \<times> frame list" where
  "get_x_from_dist rs t self distrib logits history use_softmax quantize =
     (if scalar_input self then
        (if distrib = ''Logistic'' then
           (case sample_from_discretized_mix_logistic rs t logits of
              Inl e \<Rightarrow> Inl e
            | Inr x \<Rightarrow> Inr (x, history @ [x]))
         else if distrib = ''Normal'' then
           (case sample_from_mix_gaussian rs t logits of
              Inl e \<Rightarrow> Inl e
            | Inr x \<Rightarrow> Inr (x, history @ [x]))
         else Inl AssertionError)
      else
        (let p = (if use_softmax then map softmax logits else logits);
             x = (if quantize then one_hot_categorical_sample rs t p else p)
         in Inr (x, history @ [x])))"

text \<open>
  The loop of lines 279 to 299 over the timesteps \<open>ts\<close>, with the input \<open>x\<close>, the caches
  and the history as its state. Reading a conditioning slice past the end raises.
\<close>

fun generate_loop ::
  "random_source \<Rightarrow> vocoder \<Rightarrow> frame list \<Rightarrow> nat list \<Rightarrow> frame \<Rightarrow> frame list list
   \<Rightarrow> frame list \<Rightarrow> (error + frame list) \<times> frame list list" where
  "generate_loop rs self spectrograms [] x bufs output = (Inr output, bufs)"
| "generate_loop rs self spectrograms (t # ts) x bufs output =
     (if length spectrograms \<le> t then (Inl IndexError, bufs)
      else
        (let ct = spectrograms ! t
         in case incremental_step (model self) bufs x ct of
              (Inl e, bufs') \<Rightarrow> (Inl e, bufs')
            | (Inr logits, bufs') \<Rightarrow>
                (case get_x_from_dist rs t self (output_distribution (config self))
                        logits output True True of
                   Inl e \<Rightarrow> (Inl e, bufs')
                 | Inr (x', output') \<Rightarrow>
                     generate_loop rs self spectrograms ts x' bufs' output')))"

text \<open>
  \<open>torch.stack(output).transpose(0, 1)\<close>: from one frame per timestep to one sequence of
  vectors per batch element.
\<close>

definition stack_transpose :: "frame list \<Rightarrow> vec list list" where
  "stack_transpose output = map (\<lambda>b. map (\<lambda>x. x ! b) output) [0..<length (hd output)]"

text \<open>The decoding of lines 302 to 311 and the final \<open>flatten\<close>.\<close>

definition decode_output :: "model_config \<Rightarrow> vec list list \<Rightarrow> error + real list" where
  "decode_output cfg output =
     (if input_type cfg \<in> set [''mulaw'', ''mulaw-quantize''] then
        (if input_type cfg = ''mulaw-quantize'' then
           Inr (concat (map (map (\<lambda>v. mu_law_decoding (quantize_channels cfg)
                                        (real (argmax v)))) output))
         else
           Inr (concat (map (\<lambda>row. concat (map (map (\<lambda>v.
                  mu_law_decoding (quantize_channels cfg)
                    (real_of_int (to_long (float_2_label v (quantize_channels cfg)))))) row))
                output)))
      else if input_type cfg \<noteq> ''raw'' then
        Inl (RuntimeError (''Not supported input type: '' @ input_type cfg))
      else Inr (concat (map concat output)))"

text \<open>
  \<open>generate\<close> (lines 255 to 315): the result or the exception, and the object as the call
  leaves it. \<open>torch.stack\<close> refuses an empty list.
\<close>

definition generate ::
  "random_source \<Rightarrow> vocoder \<Rightarrow> real list list list \<Rightarrow> bool \<Rightarrow> (error + real list) \<times> vocoder" where
  "generate rs self spectrograms is_training =
     (let self1 = self\<lparr>training := False, buffers := []\<rparr>;
          ups = upsample_net (model self) spectrograms;
          seq_len = (if is_training then 22050 else length (steps ups));
          batch_size = batch ups;
          x = (if scalar_input self then zeros batch_size 1
               else zeros batch_size (out_channels (config self)))
      in case generate_loop rs self1 (steps ups) [0..<seq_len] x (buffers self1) [] of
           (Inl e, bufs) \<Rightarrow> (Inl e, self1\<lparr>buffers := bufs\<rparr>)
         | (Inr output, bufs) \<Rightarrow>
             (let self2 = self1\<lparr>buffers := bufs\<rparr>
              in if output = []
                 then (Inl (RuntimeError ''stack expects a non-empty TensorList''), self2)
                 else
                   (case decode_output (config self) (stack_transpose output) of
                      Inl e \<Rightarrow> (Inl e, self2)
                    | Inr w \<Rightarrow> (Inr w, self2\<lparr>buffers := [], training := True\<rparr>))))"

subsection \<open>Training\<close>

text \<open>
  The waveforms are a tensor \<open>[batch_size, n_samples]\<close>, one row per batch element. The
  input of the inner module has one frame per sample.
\<close>

datatype target = Labels "int list list" | Scalars "real list list" | Values "vec list list"

definition n_samples :: "'a list list \<Rightarrow> nat" where
  "n_samples w = (case w of [] \<Rightarrow> 0 | row # rows \<Rightarrow> length row)"

definition scalar_frames :: "real list list \<Rightarrow> frame list" where
  "scalar_frames w = map (\<lambda>t. map (\<lambda>row. [row ! t]) w) [0..<n_samples w]"

definition one_hot_frames :: "nat \<Rightarrow> int list list \<Rightarrow> frame list" where
  "one_hot_frames n w = map (\<lambda>t. map (\<lambda>row. one_hot n (nat (row ! t))) w) [0..<n_samples w]"

fun unsqueeze_target :: "target \<Rightarrow> target" where
  "unsqueeze_target (Scalars r) = Values (map (map (\<lambda>v. [v])) r)"
| "unsqueeze_target tg = tg"

text \<open>
  \<open>loss\<close> (lines 179 to 218). The criterion object is called through \<open>ev\<close>: the loss
  modules are not among the sources and their values are not part of any property below.
  \<open>one_hot\<close> refuses a label outside \<open>[0, num_classes)\<close>.
\<close>

definition loss ::
  "(criterion \<Rightarrow> frame list \<Rightarrow> target \<Rightarrow> real) \<Rightarrow> vocoder \<Rightarrow> real list list list
   \<Rightarrow> real list list \<Rightarrow> error + real" where
  "loss ev self spectrograms waveforms =
     (let cfg = config self;
          qc = quantize_channels cfg;
          target = map (drop 1) waveforms
      in case
           (if input_type cfg \<in> set [''mulaw'', ''mulaw-quantize''] then
              (let wl = map (map (mu_law_encoding qc)) waveforms;
                   tg = map (map (mu_law_encoding qc)) target
               in if input_type cfg = ''mulaw'' then
                    Inr (scalar_frames (map (map (\<lambda>l. label_2_float (real_of_int l) qc)) wl),
                         Scalars (map (map (\<lambda>l. label_2_float (real_of_int l) qc)) tg))
                  else if list_all (list_all (\<lambda>l. 0 \<le> l \<and> l < qc)) wl then
                    Inr (one_hot_frames (nat qc) wl, Labels tg)
                  else Inl (RuntimeError ''Class values must be smaller than num_classes.''))
            else if input_type cfg = ''raw'' then
              Inr (scalar_frames waveforms, Scalars target)
            else Inl (RuntimeError (''Not supported input type: '' @ input_type cfg)))
         of
           Inl e \<Rightarrow> Inl e
         | Inr (inputs, tg) \<Rightarrow>
             (case forward (model self) inputs
                     (steps (upsample_net (model self) spectrograms)) of
                Inl e \<Rightarrow> Inl e
              | Inr output \<Rightarrow>
                  Inr (ev (criterion self) (butlast output)
                         (if input_type cfg \<in> set [''mulaw'', ''raw'']
                          then unsqueeze_target tg else tg))))"

text \<open>
  \<open>train_step\<close> (lines 220 to 240) and \<open>validation_losses\<close> (lines 242 to 253). The
  update of the parameters by the optimizer is the function \<open>opt\<close>; the returned
  dictionaries map names to values.
\<close>

definition train_step ::
  "(criterion \<Rightarrow> frame list \<Rightarrow> target \<Rightarrow> real)
   \<Rightarrow> (module \<Rightarrow> real list list list \<Rightarrow> real list list \<Rightarrow> module)
   \<Rightarrow> vocoder \<Rightarrow> real list list list \<Rightarrow> real list list
   \<Rightarrow> (error + real \<times> (string \<rightharpoonup> real)) \<times> vocoder" where
  "train_step ev opt self spectrograms waveforms =
     (case loss ev self spectrograms waveforms of
        Inl e \<Rightarrow> (Inl e, self)
      | Inr l \<Rightarrow> (Inr (l, Map.empty),
                   self\<lparr>model := opt (model self) spectrograms waveforms\<rparr>))"

definition validation_losses ::
  "(criterion \<Rightarrow> frame list \<Rightarrow> target \<Rightarrow> real) \<Rightarrow> vocoder \<Rightarrow> real list list list
   \<Rightarrow> real list list \<Rightarrow> error + (string \<rightharpoonup> real)" where
  "validation_losses ev self spectrograms waveforms =
     (case loss ev self spectrograms waveforms of
        Inl e \<Rightarrow> Inl e
      | Inr l \<Rightarrow> Inr [''nll_loss'' \<mapsto> l])"

subsection \<open>The incremental mode on given inputs\<close>

text \<open>
  The loop of \<open>generate\<close> with its sampling taken out: at timestep \<open>t\<close> the network part
  of the step runs on the given input \<open>xs ! t\<close>, and the value that \<open>generate\<close> would hand
  to \<open>get_x_from_dist\<close> is recorded.
\<close>

fun incremental_run ::
  "module \<Rightarrow> frame list \<Rightarrow> nat list \<Rightarrow> frame list \<Rightarrow> frame list list \<Rightarrow> frame list
   \<Rightarrow> (error + frame list) \<times> frame list list" where
  "incremental_run m spectrograms [] xs bufs output = (Inr output, bufs)"
| "incremental_run m spectrograms (t # ts) xs bufs output =
     (if length spectrograms \<le> t then (Inl IndexError, bufs)
      else
        (case incremental_step m bufs (xs ! t) (spectrograms ! t) of
           (Inl e, bufs') \<Rightarrow> (Inl e, bufs')
         | (Inr logits, bufs') \<Rightarrow>
             incremental_run m spectrograms ts xs bufs' (output @ [logits])))"

subsection \<open>Auxiliary functions\<close>

text \<open>
  One block run step by step over a sequence of inputs and conditioning frames, from a
  cache; the same with the history always present; and the whole stack run timestep by
  timestep.
\<close>

fun block_run ::
  "nat \<Rightarrow> block \<Rightarrow> frame list \<Rightarrow> (frame \<times> frame) list \<Rightarrow> (frame \<times> frame) list" where
  "block_run k f cache [] = []"
| "block_run k f cache ((x, c) # zs) =
     (let (out, cache') = block_incremental k f cache x c
      in out # block_run k f cache' zs)"

fun history_run ::
  "nat \<Rightarrow> block \<Rightarrow> frame list \<Rightarrow> (frame \<times> frame) list \<Rightarrow> (frame \<times> frame) list" where
  "history_run k f history [] = []"
| "history_run k f history ((x, c) # zs) =
     block_out f (window_at (dilation f) k (history @ [x]) 0) x c
       # history_run k f (drop 1 (history @ [x])) zs"

fun stack_run ::
  "nat \<Rightarrow> block list \<Rightarrow> frame list list \<Rightarrow> (frame \<times> frame \<times> frame option) list
   \<Rightarrow> (frame \<times> frame option) list" where
  "stack_run k fs bufs [] = []"
| "stack_run k fs bufs ((x, c, s) # zs) =
     (let (y, s', bufs') = conv_layers_incremental k fs bufs x c s
      in (y, s') # stack_run k fs bufs' zs)"

text \<open>The projection of the scaled skip sum of one timestep by the last layers.\<close>

definition project :: "module \<Rightarrow> frame \<times> frame option \<Rightarrow> frame" where
  "project m ys = fold last_call (last_conv_layers m)
                    (scale_skips (length (conv_layers m)) (snd ys))"

subsection \<open>Concrete instances\<close>

text \<open>
  A small network for the evaluation of the definitions: four blocks with the dilations
  1, 2, 4 and 8, kernel size 2, one residual channel, all weights zero, and the
  conditioning passed through unchanged (upsampling by the factor one).
\<close>

definition zero_linear :: "nat \<Rightarrow> nat \<Rightarrow> linear" where
  "zero_linear n_out n_in =
     \<lparr>weight = replicate n_out (replicate n_in 0), bias = replicate n_out 0\<rparr>"

definition example_block :: "nat \<Rightarrow> block" where
  "example_block d =
     \<lparr>dilation = d, conv_filter = zero_linear 1 2, conv_gate = zero_linear 1 2,
      cond_filter = zero_linear 1 1, cond_gate = zero_linear 1 1,
      res_proj = zero_linear 1 1, skip_proj = zero_linear 1 1\<rparr>"

definition upsample_identity :: "real list list list \<Rightarrow> upsampled" where
  "upsample_identity s =
     \<lparr>batch = length s,
      steps = map (\<lambda>t. map (map (\<lambda>ch. ch ! t)) s)
                [0..<(case s of [] \<Rightarrow> 0 | e # es \<Rightarrow> n_samples e)]\<rparr>"

definition example_module :: "nat \<Rightarrow> module" where
  "example_module n_out =
     \<lparr>kernel_size = 2, upsample_net = upsample_identity, first_conv = zero_linear 1 n_out,
      conv_layers = map example_block [1, 2, 4, 8],
      last_conv_layers =
        [ReLU, Conv1d1x1 (zero_linear 1 1), ReLU, Conv1d1x1 (zero_linear n_out 1)]\<rparr>"

subsection \<open>More concrete instances\<close>

text \<open>
  A configuration, two random sources (all draws zero; all uniform draws one, which picks
  the last class), collaborators whose helpers compare the string with the names of the
  encodings and whose constructor accepts every configuration, and the vocoder built
  from them. A second network has the single input channel of a scalar input and the
  three output channels of a mixture of one component.
\<close>

definition example_config :: "nat \<Rightarrow> string \<Rightarrow> string \<Rightarrow> model_config" where
  "example_config n it family =
     \<lparr>quantize_channels = 256, out_channels = n, input_type = it, output_distribution = family\<rparr>"

definition example_random :: random_source where
  "example_random =
     \<lparr>uniform = (\<lambda>t b. 0), mix_logistic = (\<lambda>t b v. 0), mix_gaussian = (\<lambda>t b v. 0)\<rparr>"


definition example_scalar_module :: module where
  "example_scalar_module =
     \<lparr>kernel_size = 2, upsample_net = upsample_identity, first_conv = zero_linear 1 1,
      conv_layers = map example_block [1, 2, 4, 8],
      last_conv_layers =
        [ReLU, Conv1d1x1 (zero_linear 1 1), ReLU, Conv1d1x1 (zero_linear 3 1)]\<rparr>"

definition example_collaborators :: collaborators where
  "example_collaborators =
     \<lparr>is_mulaw_quantize = (\<lambda>s. Inr (s = ''mulaw-quantize'')),
      is_scalar_input = (\<lambda>s. Inr (s = ''raw'' \<or> s = ''mulaw'')),
      inner_wavenet = (\<lambda>cfg sc. Inr (if sc then example_scalar_module
                                     else example_module (out_channels cfg)))\<rparr>"

definition example_vocoder :: "nat \<Rightarrow> string \<Rightarrow> string \<Rightarrow> criterion \<Rightarrow> vocoder" where
  "example_vocoder n it family crit =
     new_vocoder (example_config n it family) False (example_module n) crit"

subsection \<open>Shapes\<close>

text \<open>The last of the last layers is a convolution with \<open>n\<close> output channels: the network
  emits \<open>n\<close> distribution parameters per batch element.\<close>

definition projects_to :: "module \<Rightarrow> nat \<Rightarrow> bool" where
  "projects_to m n =
     (case rev (last_conv_layers m) of
        Conv1d1x1 l # ls \<Rightarrow> length (weight l) = n \<and> length (bias l) = n
      | _ \<Rightarrow> False)"

text \<open>
  What the loop of \<open>generate\<close> appends to its history: a frame of \<open>b\<close> rows, each a
  single sample of the amplitude range for a scalar input, each a one-hot vector of the
  width \<open>n\<close> otherwise when the network emits \<open>n\<close> parameters.\<close>

definition frame_ok :: "vocoder \<Rightarrow> nat \<Rightarrow> nat \<Rightarrow> frame \<Rightarrow> bool" where
  "frame_ok self n b f =
     (length f = b \<and>
      (if scalar_input self then list_all (\<lambda>row. \<exists>v. row = [v] \<and> - 1 \<le> v \<and> v \<le> 1) f
       else projects_to (model self) n \<longrightarrow>
            list_all (\<lambda>row. \<exists>i. row = one_hot n i \<and> (i < n \<or> n = 0)) f))"

section \<open>Properties\<close>

subsection \<open>Label transforms\<close>

lemma float_2_label_range:
  assumes "1 < n" and "- 1 \<le> x" and "x \<le> 1"
  shows "0 \<le> float_2_label x n \<and> float_2_label x n \<le> real_of_int n - 1"
proof -
  have pos: "0 < real_of_int n - 1" using assms(1) by simp
  have lo: "0 \<le> (x + 1) * (real_of_int n - 1)"
    using assms(2) pos by (intro mult_nonneg_nonneg) simp_all
  define a where "a = (x + 1) * (real_of_int n - 1)"
  have "(x + 1) * (real_of_int n - 1) \<le> 2 * (real_of_int n - 1)"
    using assms(3) pos by (intro mult_right_mono) simp_all
  then have "a \<le> 2 * (real_of_int n - 1)" by (simp only: a_def)
  then have "a / 2 \<le> real_of_int n - 1" by simp
  then have hi: "(x + 1) * (real_of_int n - 1) / 2 \<le> real_of_int n - 1"
    by (simp only: a_def)
  show ?thesis
    unfolding float_2_label_def using lo hi by simp
qed

lemma label_2_float_range:
  assumes "1 < n" and "0 \<le> y" and "y \<le> real_of_int n - 1"
  shows "- 1 \<le> label_2_float y n \<and> label_2_float y n \<le> 1"
proof -
  have pos: "0 < real_of_int n - 1" using assms(1) by simp
  have "2 * y / (real_of_int n - 1) \<le> 2"
    using assms(3) pos by (simp add: field_simps)
  moreover have "0 \<le> 2 * y / (real_of_int n - 1)"
    using assms(2) pos by simp
  ultimately show ?thesis
    by (simp add: label_2_float_def)
qed

text \<open>
  Claim C6. For every sample \<open>x\<close> of the amplitude range and every class count greater
  than one, \<open>float_2_label\<close> followed by \<open>label_2_float\<close> returns \<open>x\<close> (in exact
  arithmetic the error is zero, so it is within every quantization error), the label
  lies in the label range \<open>[0, n_classes - 1]\<close>, and on that range \<open>label_2_float\<close>
  followed by \<open>float_2_label\<close> returns the label and stays in the amplitude range: the
  two affine maps are mutual inverses on their domains.
\<close>

theorem label_transforms_inverse:
  assumes "1 < n" and "- 1 \<le> x" and "x \<le> 1" and "0 \<le> y" and "y \<le> real_of_int n - 1"
  shows "label_2_float (float_2_label x n) n = x
    \<and> 0 \<le> float_2_label x n \<and> float_2_label x n \<le> real_of_int n - 1
    \<and> float_2_label (label_2_float y n) n = y
    \<and> - 1 \<le> label_2_float y n \<and> label_2_float y n \<le> 1"
proof -
  have pos: "0 < real_of_int n - 1" using assms(1) by simp
  have a: "label_2_float (float_2_label x n) n = x"
    using pos by (simp add: label_2_float_def float_2_label_def)
  have b: "float_2_label (label_2_float y n) n = y"
    using pos by (simp add: label_2_float_def float_2_label_def field_simps)
  show ?thesis
    using a b float_2_label_range [OF assms(1-3)] label_2_float_range [OF assms(1,4,5)]
    by simp
qed

theorem label_transforms_inverse_witness:
  "(1::int) < 256 \<and> - 1 \<le> (1/2::real) \<and> (1/2::real) \<le> 1
   \<and> (0::real) \<le> 51 \<and> (51::real) \<le> real_of_int 256 - 1
   \<and> label_2_float (float_2_label (1/2) 256) 256 = 1/2
   \<and> float_2_label (label_2_float 51 256) 256 = 51
   \<and> float_2_label (1/2) 256 = 765/4"
  using label_transforms_inverse [of 256 "1/2" 51]
  by (simp add: float_2_label_def)

subsection \<open>Parallel and incremental mode\<close>

lemma last_conv_layers_incremental_fold:
  "last_conv_layers_incremental ls x = Inr (fold last_call ls x)"
proof (induction ls arbitrary: x)
  case Nil
  show ?case by simp
next
  case (Cons f ls)
  show ?case by (cases f) (simp_all add: Cons.IH)
qed

lemma window_at_cong:
  assumes "\<And>j. j < k \<Longrightarrow> ps ! (t + j * d) = qs ! (u + j * d)"
  shows "window_at d k ps t = window_at d k qs u"
  unfolding window_at_def using assms by simp

lemma history_run_windows:
  assumes "length history = (k - 1) * dilation f"
  shows "history_run k f history zs =
         map (\<lambda>t. block_out f (window_at (dilation f) k (history @ map fst zs) t)
                     (fst (zs ! t)) (snd (zs ! t))) [0..<length zs]"
  using assms
proof (induction zs arbitrary: history)
  case Nil
  show ?case by simp
next
  case (Cons z zs)
  obtain x c where z: "z = (x, c)" by (cases z)
  let ?d = "dilation f"
  let ?h' = "drop 1 (history @ [x])"
  have len': "length ?h' = (k - 1) * ?d" using Cons.prems by simp
  have app: "?h' @ map fst zs = tl (history @ x # map fst zs)"
    by (cases history) simp_all
  have w0: "window_at ?d k (history @ [x]) 0 = window_at ?d k (history @ x # map fst zs) 0"
  proof (rule window_at_cong)
    fix j assume "j < k"
    then have "j * ?d \<le> (k - 1) * ?d" by (intro mult_le_mono1) simp
    then have "j * ?d \<le> length history" using Cons.prems by simp
    then show "(history @ [x]) ! (0 + j * ?d) = (history @ x # map fst zs) ! (0 + j * ?d)"
      by (auto simp: nth_append)
  qed
  have wS: "window_at ?d k (?h' @ map fst zs) t = window_at ?d k (history @ x # map fst zs) (Suc t)" for t
  proof (rule window_at_cong)
    fix j
    show "(?h' @ map fst zs) ! (t + j * ?d) = (history @ x # map fst zs) ! (Suc t + j * ?d)"
      unfolding app by (cases history) simp_all
  qed
  have "history_run k f history (z # zs) =
          block_out f (window_at ?d k (history @ [x]) 0) x c # history_run k f ?h' zs"
    unfolding z by (simp only: history_run.simps)
  also have "history_run k f ?h' zs =
          map (\<lambda>t. block_out f (window_at ?d k (history @ x # map fst zs) (Suc t))
                     (fst (zs ! t)) (snd (zs ! t))) [0..<length zs]"
    unfolding Cons.IH [OF len'] wS ..
  finally show ?case
    unfolding z by (simp add: map_upt_Suc w0 del: upt_Suc)
qed

lemma block_run_history:
  assumes "length cache = (k - 1) * dilation f"
  shows "block_run k f cache zs = history_run k f cache zs"
  using assms
proof (induction zs arbitrary: cache)
  case Nil
  show ?case by simp
next
  case (Cons z zs)
  obtain x c where z: "z = (x, c)" by (cases z)
  have hist: "(if cache = [] then replicate ((k - 1) * dilation f) (zeros_like x) else cache) = cache"
    using Cons.prems by auto
  have len': "length (drop 1 (cache @ [x])) = (k - 1) * dilation f"
    using Cons.prems by simp
  have "block_run k f cache (z # zs) =
          block_out f (window_at (dilation f) k (cache @ [x]) 0) x c
            # block_run k f (drop 1 (cache @ [x])) zs"
    unfolding z block_run.simps block_incremental_def hist Let_def by simp
  then show ?case
    unfolding z history_run.simps Cons.IH [OF len'] .
qed

lemma block_run_empty:
  "block_run k f [] ((x, c) # zs) =
   history_run k f (replicate ((k - 1) * dilation f) (zeros_like x)) ((x, c) # zs)"
proof -
  let ?h = "replicate ((k - 1) * dilation f) (zeros_like x)"
  have len': "length (drop 1 (?h @ [x])) = (k - 1) * dilation f" by simp
  have "block_run k f [] ((x, c) # zs) =
          block_out f (window_at (dilation f) k (?h @ [x]) 0) x c
            # block_run k f (drop 1 (?h @ [x])) zs"
    unfolding block_run.simps block_incremental_def Let_def by simp
  then show ?thesis
    unfolding history_run.simps block_run_history [OF len'] .
qed

lemma block_run_forward:
  "block_run k f [] (map (\<lambda>t. (xs ! t, cs ! t)) [0..<length xs]) = block_forward k f xs cs"
proof (cases xs)
  case Nil
  then show ?thesis by (simp add: block_forward_def)
next
  case (Cons x xs')
  let ?zs = "map (\<lambda>t. (xs ! t, cs ! t)) [0..<length xs]"
  let ?h = "replicate ((k - 1) * dilation f) (zeros_like x)"
  have fst_zs: "map fst ?zs = xs" by (simp add: comp_def map_nth)
  have zs: "?zs = (x, cs ! 0) # map (\<lambda>t. (xs ! Suc t, cs ! Suc t)) [0..<length xs']"
    unfolding Cons by (simp add: map_upt_Suc del: upt_Suc)
  have "block_run k f [] ?zs = history_run k f ?h ?zs"
    unfolding zs by (rule block_run_empty)
  also have "\<dots> = map (\<lambda>t. block_out f (window_at (dilation f) k (?h @ map fst ?zs) t)
                     (fst (?zs ! t)) (snd (?zs ! t))) [0..<length ?zs]"
    by (rule history_run_windows) simp
  also have "\<dots> = map (\<lambda>t. block_out f (window_at (dilation f) k (?h @ xs) t)
                     (xs ! t) (cs ! t)) [0..<length xs]"
    unfolding fst_zs by (rule map_cong) (simp_all del: upt_Suc)
  also have "\<dots> = block_forward k f xs cs"
    unfolding block_forward_def Let_def by (simp add: Cons mult.commute del: upt_Suc)
  finally show ?thesis .
qed

lemma stack_run_Nil: "stack_run k [] bufs zs = map (\<lambda>(x, c, s). (x, s)) zs"
  by (induction zs arbitrary: bufs) auto

lemma stack_run_Cons:
  "stack_run k (f # fs) bufs zs =
   stack_run k fs (tl bufs)
     (map2 (\<lambda>(x, c, s) (x', h). (x', c, add_skip s h)) zs
        (block_run k f (case bufs of [] \<Rightarrow> [] | q # qs \<Rightarrow> q) (map (\<lambda>(x, c, s). (x, c)) zs)))"
proof (induction zs arbitrary: bufs)
  case Nil
  show ?case by simp
next
  case (Cons z zs)
  obtain x c s where z: "z = (x, c, s)" by (cases z)
  show ?case
    unfolding z
    by (simp add: Cons.IH split: prod.splits)
qed

lemma conv_layers_forward_length:
  "length ss = length xs \<Longrightarrow>
   length (fst (conv_layers_forward k fs xs cs ss)) = length xs
   \<and> length (snd (conv_layers_forward k fs xs cs ss)) = length xs"
proof (induction fs arbitrary: xs ss)
  case Nil
  then show ?case by simp
next
  case (Cons f fs)
  have l: "length (block_forward k f xs cs) = length xs" by (simp add: block_forward_def)
  show ?case
    using Cons.IH [of "map2 add_skip ss (map snd (block_forward k f xs cs))"
                      "map fst (block_forward k f xs cs)"] Cons.prems l
    by (simp add: Let_def)
qed

lemma stack_run_forward:
  assumes "length ss = length xs"
  shows "stack_run k fs [] (map (\<lambda>t. (xs ! t, cs ! t, ss ! t)) [0..<length xs]) =
         zip (fst (conv_layers_forward k fs xs cs ss)) (snd (conv_layers_forward k fs xs cs ss))"
  using assms
proof (induction fs arbitrary: xs ss)
  case Nil
  have "zip xs ss = map (\<lambda>t. (xs ! t, ss ! t)) [0..<length xs]"
    using Nil.prems by (intro nth_equalityI) simp_all
  then show ?case by (simp add: stack_run_Nil comp_def)
next
  case (Cons f fs)
  let ?zs = "map (\<lambda>t. (xs ! t, cs ! t, ss ! t)) [0..<length xs]"
  let ?outs = "block_forward k f xs cs"
  let ?xs' = "map fst ?outs"
  let ?ss' = "map2 add_skip ss (map snd ?outs)"
  have lo: "length ?outs = length xs" by (simp add: block_forward_def)
  have pairs: "map (\<lambda>(x, c, s). (x, c)) ?zs = map (\<lambda>t. (xs ! t, cs ! t)) [0..<length xs]"
    by (simp add: comp_def)
  have len': "length ?ss' = length ?xs'" using Cons.prems lo by simp
  have next_in: "map2 (\<lambda>(x, c, s) (x', h). (x', c, add_skip s h)) ?zs ?outs =
        map (\<lambda>t. (?xs' ! t, cs ! t, ?ss' ! t)) [0..<length ?xs']"
    using Cons.prems lo by (intro nth_equalityI) (simp_all add: split_beta)
  have "stack_run k (f # fs) [] ?zs = stack_run k fs []
          (map2 (\<lambda>(x, c, s) (x', h). (x', c, add_skip s h)) ?zs ?outs)"
    unfolding stack_run_Cons pairs by (simp add: block_run_forward)
  also have "\<dots> = zip (fst (conv_layers_forward k fs ?xs' cs ?ss'))
                       (snd (conv_layers_forward k fs ?xs' cs ?ss'))"
    unfolding next_in by (rule Cons.IH [OF len'])
  finally show ?case by (simp add: Let_def)
qed

lemma incremental_run_stack:
  assumes "conv_layers m \<noteq> []" and "\<forall>t \<in> set ts. t < length cs"
  shows "fst (incremental_run m cs ts xs bufs out) =
         Inr (out @ map (project m)
                (stack_run (kernel_size m) (conv_layers m) bufs
                   (map (\<lambda>t. (conv1x1 (first_conv m) (xs ! t), cs ! t, None)) ts)))"
  using assms(2)
proof (induction ts arbitrary: bufs out)
  case Nil
  show ?case by simp
next
  case (Cons t ts)
  obtain y s bufs' where step:
    "conv_layers_incremental (kernel_size m) (conv_layers m) bufs
       (conv1x1 (first_conv m) (xs ! t)) (cs ! t) None = (y, s, bufs')"
    by (cases "conv_layers_incremental (kernel_size m) (conv_layers m) bufs
       (conv1x1 (first_conv m) (xs ! t)) (cs ! t) None") auto
  have inc: "incremental_step m bufs (xs ! t) (cs ! t) = (Inr (project m (y, s)), bufs')"
    using assms(1)
    by (simp add: incremental_step_def step project_def last_conv_layers_incremental_fold)
  have t: "\<not> length cs \<le> t" and rest: "\<forall>t \<in> set ts. t < length cs"
    using Cons.prems by auto
  show ?case
    using t by (simp add: inc Cons.IH [OF rest] step)
qed

text \<open>
  Claim C1. For every network with at least one block, every sequence of inputs and every
  conditioning sequence that covers it, the incremental mode, run one timestep at a time
  from cleared caches on the given inputs (the loop of \<open>generate\<close> without its sampling),
  yields at every timestep the value that the parallel forward pass over the whole
  sequence yields there. The arithmetic is exact, so the two agree within every tolerance.
\<close>

theorem mode_equivalence:
  assumes "conv_layers m \<noteq> []" and "length xs \<le> length cs"
  shows "fst (incremental_run m cs [0..<length xs] xs [] []) = forward m xs cs"
proof -
  let ?xs' = "map (conv1x1 (first_conv m)) xs"
  let ?ss = "replicate (length xs) (None :: frame option)"
  let ?F = "conv_layers_forward (kernel_size m) (conv_layers m) ?xs' cs ?ss"
  have ins: "map (\<lambda>t. (conv1x1 (first_conv m) (xs ! t), cs ! t, None)) [0..<length xs] =
             map (\<lambda>t. (?xs' ! t, cs ! t, ?ss ! t)) [0..<length ?xs']"
    by (rule map_cong) (simp_all del: upt_Suc)
  have lens: "length (fst ?F) = length xs \<and> length (snd ?F) = length xs"
    using conv_layers_forward_length [of ?ss ?xs' "kernel_size m" "conv_layers m" cs] by simp
  have "fst (incremental_run m cs [0..<length xs] xs [] []) =
        Inr (map (project m) (stack_run (kernel_size m) (conv_layers m) []
               (map (\<lambda>t. (?xs' ! t, cs ! t, ?ss ! t)) [0..<length ?xs'])))"
    using incremental_run_stack [OF assms(1), of "[0..<length xs]" cs xs "[]" "[]"] assms(2)
    unfolding ins by simp
  also have "\<dots> = Inr (map (project m) (zip (fst ?F) (snd ?F)))"
    by (subst stack_run_forward) simp_all
  also have "map (project m) (zip (fst ?F) (snd ?F)) =
             map (\<lambda>s. fold last_call (last_conv_layers m)
                         (scale_skips (length (conv_layers m)) s)) (snd ?F)"
    using lens by (intro nth_equalityI) (simp_all add: project_def)
  finally show ?thesis
    using assms(1) by (simp add: forward_def split_beta Let_def)
qed

theorem mode_equivalence_witness:
  "conv_layers (example_module 2) \<noteq> []
   \<and> length [[[0, 0]], [[0, 0 :: real]]] \<le> length [[[0]], [[0 :: real]]]
   \<and> fst (incremental_run (example_module 2) [[[0]], [[0]]] [0..<2]
            [[[0, 0]], [[0, 0]]] [] []) = Inr [[[0, 0]], [[0, 0]]]"
  using mode_equivalence [of "example_module 2" "[[[0, 0]], [[0, 0]]]" "[[[0]], [[0]]]"]
  by (simp add: forward_def example_module_def example_block_def zero_linear_def
      block_forward_def block_out_def gated_unit_def window_at_def conv1x1_def
      apply_linear_def dot_def vadd_def sigmoid_def zeros_like_def scale_skips_def
      tscale_def tadd_def relu_def Let_def numeral_2_eq_2)

subsection \<open>The generation loop\<close>

lemma length_conv1x1 [simp]: "length (conv1x1 l x) = length x"
  by (simp add: conv1x1_def)

lemma length_block_out [simp]:
  "length (fst (block_out f w x c)) = length x" "length (snd (block_out f w x c)) = length x"
  by (simp_all add: block_out_def Let_def)

lemma length_block_incremental [simp]:
  "length (fst (fst (block_incremental k f cache x c))) = length x"
  "length (snd (fst (block_incremental k f cache x c))) = length x"
  by (simp_all add: block_incremental_def Let_def)

lemma length_last_call [simp]: "length (last_call f x) = length x"
  by (cases f) (simp_all add: relu_def)

lemma length_fold_last_call [simp]: "length (fold last_call ls x) = length x"
  by (induction ls arbitrary: x) simp_all

lemma length_tscale [simp]: "length (tscale x a) = length x"
  by (simp add: tscale_def)

lemma length_tadd [simp]: "length (tadd x y) = min (length x) (length y)"
  by (simp add: tadd_def)




lemma length_softmax [simp]: "length (softmax v) = length v"
  by (simp add: softmax_def Let_def)






lemma frame_ok_update [simp]:
  "frame_ok (self\<lparr>training := a, buffers := b\<rparr>) = frame_ok self"
  by (simp add: frame_ok_def fun_eq_iff)





subsection \<open>Construction and the course of a call to generate\<close>






lemma generate_cases:
  fixes self rs s is_training
  defines "self1 \<equiv> self\<lparr>training := False, buffers := []\<rparr>"
  defines "ups \<equiv> upsample_net (model self) s"
  defines "r \<equiv> generate_loop rs self1 (steps ups)
                 [0..<(if is_training then 22050 else length (steps ups))]
                 (if scalar_input self then zeros (batch ups) 1
                  else zeros (batch ups) (out_channels (config self))) [] []"
  shows "generate rs self s is_training =
           (case fst r of
              Inl e \<Rightarrow> (Inl e, self1\<lparr>buffers := snd r\<rparr>)
            | Inr output \<Rightarrow>
                if output = []
                then (Inl (RuntimeError ''stack expects a non-empty TensorList''),
                      self1\<lparr>buffers := snd r\<rparr>)
                else (case decode_output (config self) (stack_transpose output) of
                        Inl e \<Rightarrow> (Inl e, self1\<lparr>buffers := snd r\<rparr>)
                      | Inr w \<Rightarrow> (Inr w, self\<lparr>training := True, buffers := []\<rparr>)))"
proof -
  obtain a b where ab: "r = (a, b)" by (cases r)
  have g: "generate rs self s is_training =
             (case r of
                (Inl e, bufs) \<Rightarrow> (Inl e, self1\<lparr>buffers := bufs\<rparr>)
              | (Inr output, bufs) \<Rightarrow>
                  if output = []
                  then (Inl (RuntimeError ''stack expects a non-empty TensorList''),
                        self1\<lparr>buffers := bufs\<rparr>)
                  else (case decode_output (config self) (stack_transpose output) of
                          Inl e \<Rightarrow> (Inl e, self1\<lparr>buffers := bufs\<rparr>)
                        | Inr w \<Rightarrow>
                            (Inr w, self1\<lparr>buffers := bufs\<rparr>\<lparr>buffers := [], training := True\<rparr>)))"
    unfolding r_def ups_def self1_def generate_def Let_def
    by (simp split del: if_split cong: if_cong)
  have u: "self1\<lparr>buffers := [], training := True\<rparr>
           = self\<lparr>training := True, buffers := []\<rparr>"
    by (simp add: self1_def)
  show ?thesis
    unfolding g ab by (cases a) (simp_all add: u split del: if_split cong: if_cong sum.case_cong)
qed

lemma generate_eval:
  assumes "steps (upsample_net (model self) s) = cs"
    and "batch (upsample_net (model self) s) = b"
    and "n = (if is_training then 22050 else length cs)"
    and "x = (if scalar_input self then zeros b 1 else zeros b (out_channels (config self)))"
    and "generate_loop rs (self\<lparr>training := False, buffers := []\<rparr>) cs [0..<n] x [] []
           = (r, bufs)"
  shows "generate rs self s is_training =
           (case r of
              Inl e \<Rightarrow> (Inl e, self\<lparr>training := False, buffers := bufs\<rparr>)
            | Inr outp \<Rightarrow>
                if outp = []
                then (Inl (RuntimeError ''stack expects a non-empty TensorList''),
                      self\<lparr>training := False, buffers := bufs\<rparr>)
                else (case decode_output (config self) (stack_transpose outp) of
                        Inl e \<Rightarrow> (Inl e, self\<lparr>training := False, buffers := bufs\<rparr>)
                      | Inr w \<Rightarrow> (Inr w, self\<lparr>training := True, buffers := []\<rparr>)))"
proof -
  define R where "R = generate_loop rs (self\<lparr>training := False, buffers := []\<rparr>)
          (steps (upsample_net (model self) s))
          [0..<(if is_training then 22050 else length (steps (upsample_net (model self) s)))]
          (if scalar_input self then zeros (batch (upsample_net (model self) s)) 1
           else zeros (batch (upsample_net (model self) s)) (out_channels (config self)))
          [] []"
  have R: "R = (r, bufs)"
    using assms(5) unfolding assms(1-4) R_def .
  have "generate rs self s is_training =
           (case fst R of
              Inl e \<Rightarrow> (Inl e, self\<lparr>training := False, buffers := []\<rparr>\<lparr>buffers := snd R\<rparr>)
            | Inr outp \<Rightarrow>
                if outp = []
                then (Inl (RuntimeError ''stack expects a non-empty TensorList''),
                      self\<lparr>training := False, buffers := []\<rparr>\<lparr>buffers := snd R\<rparr>)
                else (case decode_output (config self) (stack_transpose outp) of
                        Inl e \<Rightarrow> (Inl e, self\<lparr>training := False, buffers := []\<rparr>\<lparr>buffers := snd R\<rparr>)
                      | Inr w \<Rightarrow> (Inr w, self\<lparr>training := True, buffers := []\<rparr>)))"
    unfolding R_def by (rule generate_cases)
  then show ?thesis
    unfolding R by (cases r) (simp_all cong: sum.case_cong if_cong)
qed

lemma generate_ignores_state:
  "generate rs (self\<lparr>buffers := b, training := f\<rparr>) s is_training
     = generate rs self s is_training"
proof -
  have a: "(self\<lparr>buffers := b, training := f\<rparr>)\<lparr>training := False, buffers := []\<rparr>
             = self\<lparr>training := False, buffers := []\<rparr>"
    and c: "model (self\<lparr>buffers := b, training := f\<rparr>) = model self"
      "scalar_input (self\<lparr>buffers := b, training := f\<rparr>) = scalar_input self"
      "config (self\<lparr>buffers := b, training := f\<rparr>) = config self"
    by simp_all
  show ?thesis unfolding generate_def a c ..
qed

lemma generate_state:
  "\<exists>b f. snd (generate rs self s is_training) = self\<lparr>buffers := b, training := f\<rparr>"
proof -
  define cs where "cs = steps (upsample_net (model self) s)"
  define n where "n = (if is_training then 22050 else length cs)"
  define x where "x = (if scalar_input self then zeros (batch (upsample_net (model self) s)) 1
      else zeros (batch (upsample_net (model self) s)) (out_channels (config self)))"
  obtain r bufs where R:
    "generate_loop rs (self\<lparr>training := False, buffers := []\<rparr>) cs [0..<n] x [] [] = (r, bufs)"
    by (cases "generate_loop rs (self\<lparr>training := False, buffers := []\<rparr>) cs [0..<n] x [] []")
  note g = generate_eval [OF cs_def [symmetric] refl n_def x_def R]
  have u: "self\<lparr>training := p, buffers := q\<rparr> = self\<lparr>buffers := q, training := p\<rparr>" for p q
    by simp
  show ?thesis
  proof (cases r)
    case (Inl e)
    then show ?thesis unfolding g u by auto
  next
    case (Inr outp)
    show ?thesis
    proof (cases "outp = []")
      case True
      then show ?thesis unfolding g u Inr by auto
    next
      case False
      then show ?thesis
        unfolding g u Inr
        by (cases "decode_output (config self) (stack_transpose outp)") auto
    qed
  qed
qed

lemma generate_Inr_state:
  assumes "fst (generate rs self s is_training) = Inr w"
  shows "snd (generate rs self s is_training) = self\<lparr>training := True, buffers := []\<rparr>"
proof -
  define cs where "cs = steps (upsample_net (model self) s)"
  define n where "n = (if is_training then 22050 else length cs)"
  define x where "x = (if scalar_input self then zeros (batch (upsample_net (model self) s)) 1
      else zeros (batch (upsample_net (model self) s)) (out_channels (config self)))"
  obtain r bufs where R:
    "generate_loop rs (self\<lparr>training := False, buffers := []\<rparr>) cs [0..<n] x [] [] = (r, bufs)"
    by (cases "generate_loop rs (self\<lparr>training := False, buffers := []\<rparr>) cs [0..<n] x [] []")
  note g = generate_eval [OF cs_def [symmetric] refl n_def x_def R]
  show ?thesis
  proof (cases r)
    case (Inl e)
    then show ?thesis using assms unfolding g by simp
  next
    case (Inr outp)
    show ?thesis
    proof (cases "outp = []")
      case True
      then show ?thesis using assms unfolding g Inr by simp
    next
      case False
      then show ?thesis
        using assms unfolding g Inr
        by (cases "decode_output (config self) (stack_transpose outp)") simp_all
    qed
  qed
qed

subsection \<open>The number of timesteps\<close>



lemmas example_defs =
  example_vocoder_def example_config_def example_random_def new_vocoder_def
  example_module_def example_block_def zero_linear_def upsample_identity_def n_samples_def

lemmas network_defs =
  incremental_step_def block_incremental_def block_out_def gated_unit_def window_at_def
  conv1x1_def apply_linear_def dot_def vadd_def tadd_def tscale_def sigmoid_def zeros_like_def
  scale_skips_def relu_def zeros_def

lemma example_first_step:
  "incremental_step (example_module 2) [] [[0, 0]] [[0]] =
     (Inr [[0, 0]], [[[[0]]], [[[0]], [[0]]], [[[0]], [[0]], [[0]], [[0]]],
        [[[0]], [[0]], [[0]], [[0]], [[0]], [[0]], [[0]], [[0]]]])"
  by (simp add: example_defs network_defs Let_def numeral_2_eq_2 numeral_eq_Suc)

lemma example_sample:
  "get_x_from_dist example_random 0
     ((example_vocoder 2 it family crit)\<lparr>training := a, buffers := b\<rparr>)
     family [[0, 0]] [] True True = Inr ([[1, 0]], [[[1, 0]]])"
  by (simp add: get_x_from_dist_def example_vocoder_def example_config_def example_random_def
      new_vocoder_def softmax_def one_hot_categorical_sample_def
      one_hot_def enumerate_eq_zip Let_def numeral_2_eq_2)

lemma example_init:
  assumes "it \<noteq> ''raw''" and "it \<noteq> ''mulaw''"
    and "it = ''mulaw-quantize'' \<or> family = ''Logistic'' \<or> family = ''Normal''"
  shows "init example_collaborators (example_config n it family) =
           Inr (example_vocoder n it family
                  (if it = ''mulaw-quantize'' then CrossEntropyLoss
                   else if family = ''Logistic'' then DiscretizedMixturelogisticLoss
                   else MixtureGaussianLoss))"
  using assms
  by (auto simp: init_def example_collaborators_def example_config_def example_vocoder_def)

lemma example_vocoder_fields:
  "model (example_vocoder n it family crit) = example_module n"
  "scalar_input (example_vocoder n it family crit) = False"
  "config (example_vocoder n it family crit) = example_config n it family"
  "out_channels (example_config n it family) = n"
  "output_distribution (example_config n it family) = family"
  "input_type (example_config n it family) = it"
  "quantize_channels (example_config n it family) = 256"
  by (simp_all add: example_vocoder_def new_vocoder_def example_config_def)

lemma example_upsampled:
  "upsample_net (example_module n) [[[0]]] = \<lparr>batch = 1, steps = [[[0]]]\<rparr>"
  by (simp add: example_module_def upsample_identity_def n_samples_def)

lemma example_seed:
  "[[0, 0]] = (if scalar_input (example_vocoder 2 it family crit) then zeros 1 1
               else zeros 1 (out_channels (config (example_vocoder 2 it family crit))))"
proof -
  have z: "zeros 1 2 = [[0, 0]]" by (simp add: zeros_def numeral_2_eq_2)
  show ?thesis by (simp only: example_vocoder_fields z if_False)
qed

lemma example_generate:
  "generate example_random (example_vocoder 2 it family crit) [[[0]]] False =
     (case decode_output (example_config 2 it family) [[[1, 0]]] of
        Inl e \<Rightarrow> (Inl e, (example_vocoder 2 it family crit)
                  \<lparr>training := False,
                   buffers := [[[[0]]], [[[0]], [[0]]], [[[0]], [[0]], [[0]], [[0]]],
                     [[[0]], [[0]], [[0]], [[0]], [[0]], [[0]], [[0]], [[0]]]]\<rparr>)
      | Inr w \<Rightarrow> (Inr w, (example_vocoder 2 it family crit)
                  \<lparr>training := True, buffers := []\<rparr>))"
proof -
  let ?v = "example_vocoder 2 it family crit"
  let ?v1 = "?v\<lparr>training := False, buffers := []\<rparr>"
  have m1: "model ?v1 = example_module 2" by (simp add: example_vocoder_fields)
  have loop: "generate_loop example_random ?v1 [[[0]]] [0..<1] [[0, 0]] [] [] =
      (Inr [[[1, 0]]], [[[[0]]], [[[0]], [[0]]], [[[0]], [[0]], [[0]], [[0]]],
        [[[0]], [[0]], [[0]], [[0]], [[0]], [[0]], [[0]], [[0]]]])"
    by (simp add: m1 example_vocoder_fields example_first_step example_sample)
  have st: "stack_transpose [[[1, 0 :: real]]] = [[[1, 0]]]"
    by (simp add: stack_transpose_def)
  show ?thesis
    by (subst generate_eval [OF _ _ _ example_seed loop])
      (simp_all add: example_vocoder_fields example_upsampled st)
qed

lemma example_generate_training:
  "generate example_random (example_vocoder 2 it family crit) [[[0]]] True =
     (Inl IndexError, (example_vocoder 2 it family crit)
        \<lparr>training := False,
         buffers := [[[[0]]], [[[0]], [[0]]], [[[0]], [[0]], [[0]], [[0]]],
           [[[0]], [[0]], [[0]], [[0]], [[0]], [[0]], [[0]], [[0]]]]\<rparr>)"
proof -
  let ?v = "example_vocoder 2 it family crit"
  let ?v1 = "?v\<lparr>training := False, buffers := []\<rparr>"
  have m1: "model ?v1 = example_module 2" by (simp add: example_vocoder_fields)
  have "[0..<22050::nat] = 0 # [Suc 0..<22050]" by (rule upt_conv_Cons) simp
  also have "[Suc 0..<22050] = Suc 0 # [Suc (Suc 0)..<22050]" by (rule upt_conv_Cons) simp
  finally obtain ts where ts: "[0..<22050::nat] = 0 # Suc 0 # ts" by blast
  have loop: "generate_loop example_random ?v1 [[[0]]] [0..<22050] [[0, 0]] [] [] =
      (Inl IndexError, [[[[0]]], [[[0]], [[0]]], [[[0]], [[0]], [[0]], [[0]]],
        [[[0]], [[0]], [[0]], [[0]], [[0]], [[0]], [[0]], [[0]]]])"
    unfolding ts
    by (simp add: m1 example_vocoder_fields example_first_step example_sample)
  show ?thesis
    by (subst generate_eval [OF _ _ _ example_seed loop])
      (simp_all add: example_vocoder_fields example_upsampled)
qed



subsection \<open>The range of the generated waveform\<close>























subsection \<open>Configuration errors and the caches\<close>







lemma decode_output_ignores_distribution:
  "decode_output (cfg\<lparr>output_distribution := family\<rparr>) out = decode_output cfg out"
  by (simp add: decode_output_def)






text \<open>
  Claim C9, as amended. A call to \<open>generate\<close> starts its loop from cleared caches: what it
  does is the same whatever caches the object holds when it is called. A call that
  returns a waveform leaves the caches cleared. And whatever a call leaves behind, also
  one that raised, a later call to \<open>generate\<close> on the same object does what it does on the
  object as it was before.
\<close>

theorem generate_resets_caches:
  "generate rs (self\<lparr>buffers := b\<rparr>) s is_training
     = generate rs (self\<lparr>buffers := []\<rparr>) s is_training
   \<and> (\<forall>w. fst (generate rs self s is_training) = Inr w
          \<longrightarrow> buffers (snd (generate rs self s is_training)) = [])
   \<and> generate rs' (snd (generate rs self s is_training)) s' is_training'
       = generate rs' self s' is_training'"
proof -
  have u: "self\<lparr>buffers := c\<rparr> = self\<lparr>buffers := c, training := training self\<rparr>" for c
    by simp
  have a: "generate rs (self\<lparr>buffers := b\<rparr>) s is_training
             = generate rs (self\<lparr>buffers := []\<rparr>) s is_training"
    by (subst (1 2) u) (simp only: generate_ignores_state)
  obtain c f where st: "snd (generate rs self s is_training) = self\<lparr>buffers := c, training := f\<rparr>"
    using generate_state by blast
  have b: "\<forall>w. fst (generate rs self s is_training) = Inr w
          \<longrightarrow> buffers (snd (generate rs self s is_training)) = []"
    using generate_Inr_state [of rs self s is_training] by simp
  have c: "generate rs' (snd (generate rs self s is_training)) s' is_training'
       = generate rs' self s' is_training'"
    unfolding st by (rule generate_ignores_state)
  show ?thesis using a b c by blast
qed

text \<open>
  A call that raises does not reach the reset after the loop. With \<open>training=True\<close> and a
  conditioning of one timestep the second timestep raises, and the call leaves the caches
  of the first timestep on the object, which stays in evaluation mode.
\<close>

theorem generate_resets_caches_counterexample:
  "init example_collaborators (example_config 2 ''mulaw-quantize'' ''Logistic'')
     = Inr (example_vocoder 2 ''mulaw-quantize'' ''Logistic'' CrossEntropyLoss)
   \<and> buffers (example_vocoder 2 ''mulaw-quantize'' ''Logistic'' CrossEntropyLoss) = []
   \<and> training (example_vocoder 2 ''mulaw-quantize'' ''Logistic'' CrossEntropyLoss)
   \<and> fst (generate example_random
            (example_vocoder 2 ''mulaw-quantize'' ''Logistic'' CrossEntropyLoss) [[[0]]] True)
       = Inl IndexError
   \<and> buffers (snd (generate example_random
            (example_vocoder 2 ''mulaw-quantize'' ''Logistic'' CrossEntropyLoss) [[[0]]] True))
       = [[[[0]]], [[[0]], [[0]]], [[[0]], [[0]], [[0]], [[0]]],
           [[[0]], [[0]], [[0]], [[0]], [[0]], [[0]], [[0]], [[0]]]]
   \<and> \<not> training (snd (generate example_random
            (example_vocoder 2 ''mulaw-quantize'' ''Logistic'' CrossEntropyLoss) [[[0]]] True))"
proof -
  have f: "buffers (example_vocoder 2 ''mulaw-quantize'' ''Logistic'' CrossEntropyLoss) = []"
    "training (example_vocoder 2 ''mulaw-quantize'' ''Logistic'' CrossEntropyLoss)"
    by (simp_all add: example_vocoder_def new_vocoder_def)
  show ?thesis
    using example_init [of "''mulaw-quantize''" "''Logistic''" 2] f
    by (simp add: example_generate_training)
qed

theorem generate_resets_caches_witness:
  "generate example_random
      ((example_vocoder 2 ''mulaw-quantize'' ''Logistic'' CrossEntropyLoss)
         \<lparr>buffers := [[[[1]]]]\<rparr>) [[[0]]] False
     = generate example_random
      ((example_vocoder 2 ''mulaw-quantize'' ''Logistic'' CrossEntropyLoss)
         \<lparr>buffers := []\<rparr>) [[[0]]] False
   \<and> fst (generate example_random
          (example_vocoder 2 ''mulaw-quantize'' ''Logistic'' CrossEntropyLoss)
          [[[0]]] False) = Inr [- 1]
   \<and> buffers (snd (generate example_random
          (example_vocoder 2 ''mulaw-quantize'' ''Logistic'' CrossEntropyLoss)
          [[[0]]] False)) = []"
proof -
  let ?v = "example_vocoder 2 ''mulaw-quantize'' ''Logistic'' CrossEntropyLoss"
  have dec: "decode_output (example_config 2 ''mulaw-quantize'' ''Logistic'') [[[1, 0]]]
               = Inr [- 1]"
    by (simp add: decode_output_def example_config_def mu_law_decoding_def)
  have g: "fst (generate example_random ?v [[[0]]] False) = Inr [- 1]"
    by (simp add: example_generate dec)
  note t = generate_resets_caches [where rs = example_random and self = ?v
        and b = "[[[[1]]]]" and s = "[[[0]]]" and is_training = False]
  have a: "generate example_random (?v\<lparr>buffers := [[[[1]]]]\<rparr>) [[[0]]] False
     = generate example_random (?v\<lparr>buffers := []\<rparr>) [[[0]]] False"
    by (rule t [THEN conjunct1])
  have b: "buffers (snd (generate example_random ?v [[[0]]] False)) = []"
    using t [THEN conjunct2, THEN conjunct1, rule_format, OF g] .
  show ?thesis using a g b by blast
qed


end
